theory Spec2Isabelle
  imports Main
begin

section \<open>Data model of \<^verbatim>\<open>Plant_Class.py\<close>\<close>

text \<open>
  Python exceptions that the modelled code can raise: \<^verbatim>\<open>ValueError\<close> from the two
  constructors, \<^verbatim>\<open>IndexError\<close> from list indexing.
\<close>

datatype py_error = ValueError | IndexError

text \<open>
  \<^verbatim>\<open>PlatformObject\<close> instances are mutable and shared: the platform keeps references to
  them in its grid cells and in its dictionary, and \<^verbatim>\<open>place_object\<close> assigns to the
  attributes of the instance it was handed. Instances therefore live in a store that is
  indexed by references; a reference is an address, and every address holds an instance
  (placed or not, built by the constructor or not). The attribute \<^verbatim>\<open>id\<close> is named
  \<open>obj_id\<close> (as the constructor's parameter is), because \<open>id\<close> is HOL's identity.
\<close>

type_synonym ref = nat

record PlatformObject =
  obj_id :: string
  width_tiles :: int
  length_tiles :: int
  x_coord :: int
  y_coord :: int
  shape_mask :: "int list list"

type_synonym heap = "ref \<Rightarrow> PlatformObject"

text \<open>
  A grid cell holds the integer \<^verbatim>\<open>0\<close> or a reference to a \<^verbatim>\<open>PlatformObject\<close>.
  The class defines no \<^verbatim>\<open>__eq__\<close>, so \<^verbatim>\<open>cell != 0\<close> is true for every instance.
\<close>

datatype cell = Zero | Ref ref

text \<open>
  \<^verbatim>\<open>TilePlatform\<close>. The attribute \<^verbatim>\<open>length\<close> is named \<open>length_p\<close>, because
  \<open>length\<close> is the length of a HOL list. The rows of \<^verbatim>\<open>grid\<close> are built by a list
  comprehension, hence are distinct list objects, and a list of rows models them.
\<close>

record TilePlatform =
  width :: int
  length_p :: int
  grid :: "cell list list"
  objects :: "string \<rightharpoonup> ref"

text \<open>
  The four lines \<^verbatim>\<open>place_object\<close> can print, with the values its f-strings interpolate:
  the id, then (but for the duplicate line) \<^verbatim>\<open>obj_width\<close>, \<^verbatim>\<open>obj_length\<close>,
  \<^verbatim>\<open>start_x\<close>, \<^verbatim>\<open>start_y\<close>.
\<close>

datatype message =
    AlreadyPresent string
  | OutOfBounds string int int int int
  | AreaOccupied string int int int int
  | Placed string int int int int

text \<open>
  What a call of \<^verbatim>\<open>place_object\<close> that returns leaves behind: the boolean it returns,
  the line it printed, the platform and the store after the call.
\<close>

record outcome =
  returned :: bool
  printed :: message
  platform :: TilePlatform
  store :: heap

section \<open>Python list indexing\<close>

text \<open>
  \<^verbatim>\<open>xs[i]\<close>: a negative index counts from the end, and an index outside
  \<^verbatim>\<open>-len(xs) .. len(xs)-1\<close> raises \<^verbatim>\<open>IndexError\<close>. \<open>py_index n i\<close> is the position
  in a list of \<open>n\<close> elements that the index \<open>i\<close> denotes.
\<close>

definition py_index :: "nat \<Rightarrow> int \<Rightarrow> py_error + nat" where
  "py_index n i =
     (if 0 \<le> i \<and> i < int n then Inr (nat i)
      else if i < 0 \<and> - int n \<le> i then Inr (nat (int n + i))
      else Inl IndexError)"

definition py_getitem :: "'a list \<Rightarrow> int \<Rightarrow> py_error + 'a" where
  "py_getitem xs i =
     (case py_index (length xs) i of Inl e \<Rightarrow> Inl e | Inr j \<Rightarrow> Inr (xs ! j))"

definition py_setitem :: "'a list \<Rightarrow> int \<Rightarrow> 'a \<Rightarrow> py_error + 'a list" where
  "py_setitem xs i v =
     (case py_index (length xs) i of Inl e \<Rightarrow> Inl e | Inr j \<Rightarrow> Inr (xs[j := v]))"

text \<open>\<^verbatim>\<open>range(a, b)\<close> as the list of its values; empty when \<open>b \<le> a\<close>.\<close>

definition py_range :: "int \<Rightarrow> int \<Rightarrow> int list" where
  "py_range a b = [a..b - 1]"

section \<open>\<^verbatim>\<open>PlatformObject.__init__\<close>\<close>

text \<open>
  The constructor, returning the attributes of the new instance. \<^verbatim>\<open>not obj_id\<close> is
  true of the empty string. \<^verbatim>\<open>[1] * n\<close> and \<^verbatim>\<open>range(n)\<close> are empty for \<open>n \<le> 0\<close>.
\<close>

definition PlatformObject_init ::
  "string \<Rightarrow> int \<Rightarrow> int \<Rightarrow> int list list option \<Rightarrow> py_error + PlatformObject" where
  "PlatformObject_init oid w l supplied =
     (if oid = [] then Inl ValueError
      else case supplied of
        None \<Rightarrow>
          Inr \<lparr>obj_id = oid, width_tiles = w, length_tiles = l, x_coord = - 1, y_coord = - 1,
               shape_mask = map (\<lambda>_. replicate (nat w) 1) (py_range 0 l)\<rparr>
      | Some m \<Rightarrow>
          if int (length m) \<noteq> l \<or> list_ex (\<lambda>row. int (length row) \<noteq> w) m
          then Inl ValueError
          else Inr \<lparr>obj_id = oid, width_tiles = w, length_tiles = l, x_coord = - 1,
                    y_coord = - 1, shape_mask = m\<rparr>)"

section \<open>\<^verbatim>\<open>TilePlatform\<close>\<close>

text \<open>\<^verbatim>\<open>TilePlatform.__init__\<close> (the line it prints is left out).\<close>

definition TilePlatform_init :: "int \<Rightarrow> int \<Rightarrow> py_error + TilePlatform" where
  "TilePlatform_init w l =
     (if w \<le> 0 \<or> l \<le> 0 then Inl ValueError
      else Inr \<lparr>width = w, length_p = l,
                grid = map (\<lambda>_. replicate (nat w) Zero) (py_range 0 l),
                objects = Map.empty\<rparr>)"

text \<open>\<^verbatim>\<open>_is_valid_position\<close>, with its two early returns.\<close>

definition is_valid_position :: "TilePlatform \<Rightarrow> int \<Rightarrow> int \<Rightarrow> int \<Rightarrow> int \<Rightarrow> bool" where
  "is_valid_position self start_x start_y obj_width obj_length =
     (if start_x < 0 \<or> start_y < 0 then False
      else if start_x + obj_width > width self \<or> start_y + obj_length > length_p self
      then False
      else True)"

text \<open>
  \<^verbatim>\<open>_is_area_free\<close>: the inner loop over \<open>x\<close> for one \<open>y\<close>, then the outer loop over
  \<open>y\<close>. \<^verbatim>\<open>self.grid[y][x]\<close> indexes twice, and either indexing can raise. The first
  occupied cell ends both loops with \<^verbatim>\<open>False\<close>.
\<close>

fun area_free_row :: "cell list list \<Rightarrow> int \<Rightarrow> int list \<Rightarrow> py_error + bool" where
  "area_free_row g y [] = Inr True"
| "area_free_row g y (x # xs) =
     (case py_getitem g y of
        Inl e \<Rightarrow> Inl e
      | Inr row \<Rightarrow>
          (case py_getitem row x of
             Inl e \<Rightarrow> Inl e
           | Inr c \<Rightarrow> if c \<noteq> Zero then Inr False else area_free_row g y xs))"

fun area_free_rows :: "cell list list \<Rightarrow> int list \<Rightarrow> int list \<Rightarrow> py_error + bool" where
  "area_free_rows g [] xs = Inr True"
| "area_free_rows g (y # ys) xs =
     (case area_free_row g y xs of
        Inl e \<Rightarrow> Inl e
      | Inr free \<Rightarrow> if free then area_free_rows g ys xs else Inr False)"

definition is_area_free ::
  "TilePlatform \<Rightarrow> int \<Rightarrow> int \<Rightarrow> int \<Rightarrow> int \<Rightarrow> py_error + bool" where
  "is_area_free self start_x start_y obj_width obj_length =
     area_free_rows (grid self) (py_range start_y (start_y + obj_length))
       (py_range start_x (start_x + obj_width))"

text \<open>
  Step 4 of \<^verbatim>\<open>place_object\<close>: the two loops that run \<^verbatim>\<open>self.grid[y][x] = obj\<close>.
  The statement reads the row \<^verbatim>\<open>self.grid[y]\<close> and assigns into that row.
\<close>

fun store_row :: "cell list list \<Rightarrow> int \<Rightarrow> int list \<Rightarrow> cell \<Rightarrow> py_error + cell list list" where
  "store_row g y [] v = Inr g"
| "store_row g y (x # xs) v =
     (case py_index (length g) y of
        Inl e \<Rightarrow> Inl e
      | Inr j \<Rightarrow>
          (case py_setitem (g ! j) x v of
             Inl e \<Rightarrow> Inl e
           | Inr row \<Rightarrow> store_row (g[j := row]) y xs v))"

fun store_rows ::
  "cell list list \<Rightarrow> int list \<Rightarrow> int list \<Rightarrow> cell \<Rightarrow> py_error + cell list list" where
  "store_rows g [] xs v = Inr g"
| "store_rows g (y # ys) xs v =
     (case store_row g y xs v of Inl e \<Rightarrow> Inl e | Inr g' \<Rightarrow> store_rows g' ys xs v)"

text \<open>
  \<^verbatim>\<open>place_object\<close>. \<open>obj\<close> is the reference passed by the caller; \<open>h\<close> is the store
  before the call. A raised exception is \<open>Inl\<close>.
\<close>

definition place_object ::
  "TilePlatform \<Rightarrow> heap \<Rightarrow> int \<Rightarrow> int \<Rightarrow> ref \<Rightarrow> py_error + outcome" where
  "place_object self h start_x start_y obj =
     (let oid = obj_id (h obj);
          obj_width = width_tiles (h obj);
          obj_length = length_tiles (h obj)
      in
        if objects self oid \<noteq> None then
          Inr \<lparr>returned = False, printed = AlreadyPresent oid, platform = self, store = h\<rparr>
        else if \<not> is_valid_position self start_x start_y obj_width obj_length then
          Inr \<lparr>returned = False,
               printed = OutOfBounds oid obj_width obj_length start_x start_y,
               platform = self, store = h\<rparr>
        else
          (case is_area_free self start_x start_y obj_width obj_length of
             Inl e \<Rightarrow> Inl e
           | Inr free \<Rightarrow>
               if \<not> free then
                 Inr \<lparr>returned = False,
                      printed = AreaOccupied oid obj_width obj_length start_x start_y,
                      platform = self, store = h\<rparr>
               else
                 (case store_rows (grid self) (py_range start_y (start_y + obj_length))
                         (py_range start_x (start_x + obj_width)) (Ref obj) of
                    Inl e \<Rightarrow> Inl e
                  | Inr g \<Rightarrow>
                      Inr \<lparr>returned = True,
                           printed = Placed oid obj_width obj_length start_x start_y,
                           platform = self\<lparr>grid := g, objects := (objects self)(oid \<mapsto> obj)\<rparr>,
                           store = h(obj := (h obj)\<lparr>x_coord := start_x, y_coord := start_y\<rparr>)\<rparr>)))"

text \<open>
  \<^verbatim>\<open>get_object_instance\<close>: \<^verbatim>\<open>dict.get\<close> gives \<^verbatim>\<open>None\<close> for a missing key. Like the
  other methods it is given the platform and hands it back, here as it was.
\<close>

definition get_object_instance :: "TilePlatform \<Rightarrow> string \<Rightarrow> ref option \<times> TilePlatform" where
  "get_object_instance self oid = (objects self oid, self)"

text \<open>What the caller of \<^verbatim>\<open>place_object\<close> receives: the boolean, or the exception.\<close>

definition return_value :: "py_error + outcome \<Rightarrow> py_error + bool" where
  "return_value res = (case res of Inl e \<Rightarrow> Inl e | Inr out \<Rightarrow> Inr (returned out))"

section \<open>A caller placing one object after another\<close>

text \<open>
  A caller that makes the calls \<^verbatim>\<open>platform.place_object(x, y, obj)\<close> of a list in turn, as
  \<^verbatim>\<open>run_tests\<close> does, and collects the booleans they return. An exception ends the run.
\<close>

fun place_all ::
  "TilePlatform \<Rightarrow> heap \<Rightarrow> (int \<times> int \<times> ref) list \<Rightarrow>
     py_error + (bool list \<times> TilePlatform \<times> heap)" where
  "place_all p h [] = Inr ([], p, h)"
| "place_all p h ((x, y, r) # cs) =
     (case place_object p h x y r of
        Inl e \<Rightarrow> Inl e
      | Inr out \<Rightarrow>
          (case place_all (platform out) (store out) cs of
             Inl e \<Rightarrow> Inl e
           | Inr (bs, p', h') \<Rightarrow> Inr (returned out # bs, p', h')))"

section \<open>Vocabulary of the properties\<close>

text \<open>
  The shape \<^verbatim>\<open>TilePlatform.__init__\<close> gives a platform: positive dimensions,
  \<^verbatim>\<open>length\<close> rows, each of \<^verbatim>\<open>width\<close> cells.
\<close>

definition wf_platform :: "TilePlatform \<Rightarrow> bool" where
  "wf_platform p =
     (0 < width p \<and> 0 < length_p p \<and> int (length (grid p)) = length_p p \<and>
      list_all (\<lambda>row. int (length row) = width p) (grid p))"

text \<open>The cell in column \<open>cx\<close> of row \<open>cy\<close>, when the grid has one.\<close>

definition cell_at :: "cell list list \<Rightarrow> int \<Rightarrow> int \<Rightarrow> cell option" where
  "cell_at g cx cy =
     (if 0 \<le> cy \<and> cy < int (length g) \<and> 0 \<le> cx \<and> cx < int (length (g ! nat cy))
      then Some (g ! nat cy ! nat cx) else None)"

text \<open>Membership of the bounding box \<open>[x, x+w) \<times> [y, y+l)\<close>.\<close>

definition in_box :: "int \<Rightarrow> int \<Rightarrow> int \<Rightarrow> int \<Rightarrow> int \<Rightarrow> int \<Rightarrow> bool" where
  "in_box x y w l cx cy = (x \<le> cx \<and> cx < x + w \<and> y \<le> cy \<and> cy < y + l)"

text \<open>Some cell among those the two loops of \<^verbatim>\<open>_is_area_free\<close> visit is not an empty one.\<close>

definition box_occupied :: "cell list list \<Rightarrow> int \<Rightarrow> int \<Rightarrow> int \<Rightarrow> int \<Rightarrow> bool" where
  "box_occupied g x y w l =
     (\<exists>cy \<in> set (py_range y (y + l)). \<exists>cx \<in> set (py_range x (x + w)).
        cell_at g cx cy \<noteq> Some Zero)"

text \<open>
  The cells, as (column, row), that the loops of step 4 assign when the object \<open>r\<close> is
  placed at \<open>(x, y)\<close>.
\<close>

definition committed :: "heap \<Rightarrow> int \<Rightarrow> int \<Rightarrow> ref \<Rightarrow> (int \<times> int) set" where
  "committed h x y r =
     set (py_range x (x + width_tiles (h r))) \<times> set (py_range y (y + length_tiles (h r)))"

text \<open>
  \<open>g'\<close> is \<open>g\<close> with \<open>v\<close> written into the cells of the rows \<open>Y\<close> and columns \<open>X\<close>.
\<close>

definition painted ::
  "cell list list \<Rightarrow> cell list list \<Rightarrow> int set \<Rightarrow> int set \<Rightarrow> cell \<Rightarrow> bool" where
  "painted g g' Y X v =
     (length g' = length g \<and>
      (\<forall>j < length g. length (g' ! j) = length (g ! j) \<and>
         (\<forall>i < length (g ! j).
            g' ! j ! i = (if int j \<in> Y \<and> int i \<in> X then v else g ! j ! i))))"

section \<open>The objects and platforms of \<^verbatim>\<open>run_tests\<close>\<close>

text \<open>
  \<^verbatim>\<open>GLOBAL_GROWTH_MASKS["mature_tree"]\<close>, and a store holding \<^verbatim>\<open>HouseA\<close> (3x2),
  \<^verbatim>\<open>TreeX\<close> (3x3, with that mask), \<^verbatim>\<open>Fence\<close> (2x1) and \<^verbatim>\<open>Rock\<close> (1x1), none of them
  placed yet.
\<close>

definition mature_tree :: "int list list" where
  "mature_tree = [[1, 1, 1], [1, 1, 0], [1, 0, 0]]"

definition demo_heap :: heap where
  "demo_heap =
     (\<lambda>_. \<lparr>obj_id = ''Rock'', width_tiles = 1, length_tiles = 1, x_coord = - 1,
            y_coord = - 1, shape_mask = [[1]]\<rparr>)
     (0 := \<lparr>obj_id = ''HouseA'', width_tiles = 3, length_tiles = 2, x_coord = - 1,
            y_coord = - 1, shape_mask = [[1, 1, 1], [1, 1, 1]]\<rparr>,
      1 := \<lparr>obj_id = ''TreeX'', width_tiles = 3, length_tiles = 3, x_coord = - 1,
            y_coord = - 1, shape_mask = mature_tree\<rparr>,
      2 := \<lparr>obj_id = ''Fence'', width_tiles = 2, length_tiles = 1, x_coord = - 1,
            y_coord = - 1, shape_mask = [[1, 1]]\<rparr>)"

text \<open>The 10x5 platform: empty, then with \<^verbatim>\<open>HouseA\<close> at (1, 1).\<close>

definition empty_row :: "cell list" where
  "empty_row = [Zero, Zero, Zero, Zero, Zero, Zero, Zero, Zero, Zero, Zero]"

definition house_row :: "cell list" where
  "house_row = [Zero, Ref 0, Ref 0, Ref 0, Zero, Zero, Zero, Zero, Zero, Zero]"

definition demo_platform :: TilePlatform where
  "demo_platform =
     \<lparr>width = 10, length_p = 5,
      grid = [empty_row, empty_row, empty_row, empty_row, empty_row],
      objects = Map.empty\<rparr>"

definition house_platform :: TilePlatform where
  "house_platform =
     \<lparr>width = 10, length_p = 5,
      grid = [empty_row, house_row, house_row, empty_row, empty_row],
      objects = [''HouseA'' \<mapsto> 0]\<rparr>"

definition house_heap :: heap where
  "house_heap = demo_heap(0 := (demo_heap 0)\<lparr>x_coord := 1, y_coord := 1\<rparr>)"

text \<open>The 10x5 platform with only \<^verbatim>\<open>Rock\<close> on it, at (7, 3).\<close>

definition rock_row :: "cell list" where
  "rock_row = [Zero, Zero, Zero, Zero, Zero, Zero, Zero, Ref 3, Zero, Zero]"

definition rock_platform :: TilePlatform where
  "rock_platform =
     \<lparr>width = 10, length_p = 5,
      grid = [empty_row, empty_row, empty_row, rock_row, empty_row],
      objects = [''Rock'' \<mapsto> 3]\<rparr>"

definition rock_heap :: heap where
  "rock_heap = demo_heap(3 := (demo_heap 3)\<lparr>x_coord := 7, y_coord := 3\<rparr>)"

section \<open>The loops on a well-shaped grid\<close>

lemma set_py_range: "set (py_range a b) = {a..<b}"
  by (auto simp: py_range_def)

lemma py_index_inside: "0 \<le> i \<Longrightarrow> i < int n \<Longrightarrow> py_index n i = Inr (nat i)"
  by (simp add: py_index_def)

lemma area_free_row_inside:
  assumes "0 \<le> y" "y < int (length g)"
    and "\<forall>x \<in> set xs. 0 \<le> x \<and> x < int (length (g ! nat y))"
  shows "area_free_row g y xs = Inr (\<forall>x \<in> set xs. g ! nat y ! nat x = Zero)"
  using assms
  by (induction xs) (auto simp: py_getitem_def py_index_inside)

lemma area_free_rows_inside:
  assumes "\<forall>y \<in> set ys. 0 \<le> y \<and> y < int (length g) \<and>
             (\<forall>x \<in> set xs. 0 \<le> x \<and> x < int (length (g ! nat y)))"
  shows "area_free_rows g ys xs = Inr (\<forall>y \<in> set ys. \<forall>x \<in> set xs. g ! nat y ! nat x = Zero)"
  using assms
  by (induction ys) (auto simp: area_free_row_inside)

lemma painted_refl: "painted g g {} X v" "painted g g Y {} v"
  by (simp_all add: painted_def)

lemma painted_trans:
  "painted g g1 Y1 X1 v \<Longrightarrow> painted g1 g2 Y2 X2 v \<Longrightarrow>
   (\<And>j i. (j \<in> Y1 \<and> i \<in> X1 \<or> j \<in> Y2 \<and> i \<in> X2) = (j \<in> Y \<and> i \<in> X)) \<Longrightarrow>
   painted g g2 Y X v"
  unfolding painted_def by (auto split: if_splits)

lemma store_row_inside:
  assumes "0 \<le> y" "y < int (length g)"
    and "\<forall>x \<in> set xs. 0 \<le> x \<and> x < int (length (g ! nat y))"
  shows "\<exists>g'. store_row g y xs v = Inr g' \<and> painted g g' {y} (set xs) v"
  using assms
proof (induction xs arbitrary: g)
  case Nil
  show ?case by (simp add: painted_refl)
next
  case (Cons x xs)
  let ?g1 = "g[nat y := (g ! nat y)[nat x := v]]"
  have p1: "painted g ?g1 {y} {x} v"
    using Cons.prems by (auto simp: painted_def nth_list_update)
  have "\<exists>g'. store_row ?g1 y xs v = Inr g' \<and> painted ?g1 g' {y} (set xs) v"
    using Cons.prems by (intro Cons.IH) auto
  then obtain g' where g': "store_row ?g1 y xs v = Inr g'" "painted ?g1 g' {y} (set xs) v"
    by blast
  have "store_row g y (x # xs) v = Inr g'"
    using Cons.prems g'(1) by (simp add: py_index_inside py_setitem_def)
  moreover have "painted g g' {y} (set (x # xs)) v"
    by (rule painted_trans [OF p1 g'(2)]) auto
  ultimately show ?case by blast
qed

lemma store_rows_inside:
  assumes "\<forall>y \<in> set ys. 0 \<le> y \<and> y < int (length g) \<and>
             (\<forall>x \<in> set xs. 0 \<le> x \<and> x < int (length (g ! nat y)))"
  shows "\<exists>g'. store_rows g ys xs v = Inr g' \<and> painted g g' (set ys) (set xs) v"
  using assms
proof (induction ys arbitrary: g)
  case Nil
  show ?case by (simp add: painted_refl)
next
  case (Cons y ys)
  obtain g1 where g1: "store_row g y xs v = Inr g1" "painted g g1 {y} (set xs) v"
    using store_row_inside [of y g xs v] Cons.prems by auto
  have "\<exists>g'. store_rows g1 ys xs v = Inr g' \<and> painted g1 g' (set ys) (set xs) v"
  proof (rule Cons.IH, intro ballI)
    fix y' assume "y' \<in> set ys"
    then show "0 \<le> y' \<and> y' < int (length g1) \<and>
             (\<forall>x \<in> set xs. 0 \<le> x \<and> x < int (length (g1 ! nat y')))"
      using Cons.prems g1(2) by (auto simp: painted_def)
  qed
  then obtain g' where g': "store_rows g1 ys xs v = Inr g'" "painted g1 g' (set ys) (set xs) v"
    by blast
  have "store_rows g (y # ys) xs v = Inr g'"
    using g1(1) g'(1) by simp
  moreover have "painted g g' (set (y # ys)) (set xs) v"
    by (rule painted_trans [OF g1(2) g'(2)]) auto
  ultimately show ?case by blast
qed

lemma painted_cell_at:
  assumes "painted g g' Y X v"
  shows "cell_at g' cx cy =
           (if cy \<in> Y \<and> cx \<in> X \<and> cell_at g cx cy \<noteq> None then Some v else cell_at g cx cy)"
  using assms by (auto simp: painted_def cell_at_def nat_less_iff)

lemma painted_wf:
  assumes "wf_platform p" "painted (grid p) g Y X v"
  shows "wf_platform (p\<lparr>grid := g, objects := m\<rparr>)"
proof -
  have "length (g ! j) = length (grid p ! j)" if "j < length g" for j
    using assms(2) that by (simp add: painted_def)
  moreover have "length g = length (grid p)" using assms(2) by (simp add: painted_def)
  ultimately have "list_all (\<lambda>row. int (length row) = width p) g"
    using assms(1) by (auto simp: wf_platform_def list_all_length)
  then show ?thesis
    using assms by (simp add: wf_platform_def painted_def)
qed

lemma wf_inside:
  assumes "wf_platform p" "is_valid_position p x y w l"
  shows "\<forall>cy \<in> set (py_range y (y + l)). 0 \<le> cy \<and> cy < int (length (grid p)) \<and>
           (\<forall>cx \<in> set (py_range x (x + w)). 0 \<le> cx \<and> cx < int (length (grid p ! nat cy)))"
proof (intro ballI)
  fix cy assume "cy \<in> set (py_range y (y + l))"
  then have cy: "y \<le> cy" "cy < y + l" by (auto simp: set_py_range)
  have v: "0 \<le> x" "0 \<le> y" "x + w \<le> width p" "y + l \<le> length_p p"
    using assms(2) by (auto simp: is_valid_position_def split: if_splits)
  have len: "int (length (grid p)) = length_p p"
    using assms(1) by (simp add: wf_platform_def)
  have cyb: "0 \<le> cy" "cy < int (length (grid p))" using cy v len by auto
  then have "grid p ! nat cy \<in> set (grid p)" by (simp add: nat_less_iff)
  then have "int (length (grid p ! nat cy)) = width p"
    using assms(1) by (auto simp: wf_platform_def list_all_iff)
  then show "0 \<le> cy \<and> cy < int (length (grid p)) \<and>
           (\<forall>cx \<in> set (py_range x (x + w)). 0 \<le> cx \<and> cx < int (length (grid p ! nat cy)))"
    using cyb v by (auto simp: set_py_range)
qed

lemma is_area_free_wf:
  assumes "wf_platform p" "is_valid_position p x y w l"
  shows "is_area_free p x y w l = Inr (\<not> box_occupied (grid p) x y w l)"
proof -
  note ins = wf_inside [OF assms]
  have "is_area_free p x y w l =
          Inr (\<forall>cy \<in> set (py_range y (y + l)). \<forall>cx \<in> set (py_range x (x + w)).
                 grid p ! nat cy ! nat cx = Zero)"
    unfolding is_area_free_def by (rule area_free_rows_inside [OF ins])
  moreover have "(\<forall>cy \<in> set (py_range y (y + l)). \<forall>cx \<in> set (py_range x (x + w)).
                 grid p ! nat cy ! nat cx = Zero) = (\<not> box_occupied (grid p) x y w l)"
    using ins by (auto simp: box_occupied_def cell_at_def)
  ultimately show ?thesis by simp
qed

lemma box_occupied_iff:
  "box_occupied g x y w l = (\<exists>cx cy. in_box x y w l cx cy \<and> cell_at g cx cy \<noteq> Some Zero)"
  unfolding box_occupied_def in_box_def set_py_range by fastforce

section \<open>The four ways \<^verbatim>\<open>place_object\<close> returns\<close>

lemma place_object_duplicate:
  assumes "objects p (obj_id (h r)) \<noteq> None"
  shows "place_object p h x y r =
           Inr \<lparr>returned = False, printed = AlreadyPresent (obj_id (h r)),
                platform = p, store = h\<rparr>"
  using assms by (simp add: place_object_def)

lemma place_object_outside:
  assumes "objects p (obj_id (h r)) = None"
    and "\<not> is_valid_position p x y (width_tiles (h r)) (length_tiles (h r))"
  shows "place_object p h x y r =
           Inr \<lparr>returned = False,
                printed = OutOfBounds (obj_id (h r)) (width_tiles (h r)) (length_tiles (h r)) x y,
                platform = p, store = h\<rparr>"
  using assms by (simp add: place_object_def)

lemma place_object_occupied:
  assumes "wf_platform p" "objects p (obj_id (h r)) = None"
    and "is_valid_position p x y (width_tiles (h r)) (length_tiles (h r))"
    and "box_occupied (grid p) x y (width_tiles (h r)) (length_tiles (h r))"
  shows "place_object p h x y r =
           Inr \<lparr>returned = False,
                printed = AreaOccupied (obj_id (h r)) (width_tiles (h r)) (length_tiles (h r)) x y,
                platform = p, store = h\<rparr>"
  using assms by (simp add: place_object_def is_area_free_wf)

lemma place_object_free:
  assumes "wf_platform p" "objects p (obj_id (h r)) = None"
    and "is_valid_position p x y (width_tiles (h r)) (length_tiles (h r))"
    and "\<not> box_occupied (grid p) x y (width_tiles (h r)) (length_tiles (h r))"
  shows "\<exists>g. painted (grid p) g {y..<y + length_tiles (h r)} {x..<x + width_tiles (h r)} (Ref r) \<and>
           place_object p h x y r =
             Inr \<lparr>returned = True,
                  printed = Placed (obj_id (h r)) (width_tiles (h r)) (length_tiles (h r)) x y,
                  platform = p\<lparr>grid := g, objects := (objects p)(obj_id (h r) \<mapsto> r)\<rparr>,
                  store = h(r := (h r)\<lparr>x_coord := x, y_coord := y\<rparr>)\<rparr>"
proof -
  obtain g where g: "store_rows (grid p) (py_range y (y + length_tiles (h r)))
                       (py_range x (x + width_tiles (h r))) (Ref r) = Inr g"
      "painted (grid p) g (set (py_range y (y + length_tiles (h r))))
         (set (py_range x (x + width_tiles (h r)))) (Ref r)"
    using store_rows_inside [OF wf_inside [OF assms(1,3)]] by blast
  show ?thesis
    using assms g by (intro exI [of _ g]) (simp add: place_object_def Let_def is_area_free_wf set_py_range)
qed

lemma place_object_cases:
  assumes "wf_platform p"
  obtains
    (duplicate) "objects p (obj_id (h r)) \<noteq> None"
      "place_object p h x y r =
         Inr \<lparr>returned = False, printed = AlreadyPresent (obj_id (h r)),
              platform = p, store = h\<rparr>"
  | (outside) "objects p (obj_id (h r)) = None"
      "\<not> is_valid_position p x y (width_tiles (h r)) (length_tiles (h r))"
      "place_object p h x y r =
         Inr \<lparr>returned = False,
              printed = OutOfBounds (obj_id (h r)) (width_tiles (h r)) (length_tiles (h r)) x y,
              platform = p, store = h\<rparr>"
  | (occupied) "objects p (obj_id (h r)) = None"
      "is_valid_position p x y (width_tiles (h r)) (length_tiles (h r))"
      "box_occupied (grid p) x y (width_tiles (h r)) (length_tiles (h r))"
      "place_object p h x y r =
         Inr \<lparr>returned = False,
              printed = AreaOccupied (obj_id (h r)) (width_tiles (h r)) (length_tiles (h r)) x y,
              platform = p, store = h\<rparr>"
  | (free) g where "objects p (obj_id (h r)) = None"
      "is_valid_position p x y (width_tiles (h r)) (length_tiles (h r))"
      "\<not> box_occupied (grid p) x y (width_tiles (h r)) (length_tiles (h r))"
      "painted (grid p) g {y..<y + length_tiles (h r)} {x..<x + width_tiles (h r)} (Ref r)"
      "place_object p h x y r =
         Inr \<lparr>returned = True,
              printed = Placed (obj_id (h r)) (width_tiles (h r)) (length_tiles (h r)) x y,
              platform = p\<lparr>grid := g, objects := (objects p)(obj_id (h r) \<mapsto> r)\<rparr>,
              store = h(r := (h r)\<lparr>x_coord := x, y_coord := y\<rparr>)\<rparr>"
proof (cases "objects p (obj_id (h r)) \<noteq> None")
  case True
  then show ?thesis using duplicate place_object_duplicate by blast
next
  case nodup: False
  show ?thesis
  proof (cases "is_valid_position p x y (width_tiles (h r)) (length_tiles (h r))")
    case False
    then show ?thesis using nodup outside place_object_outside by simp
  next
    case valid: True
    show ?thesis
    proof (cases "box_occupied (grid p) x y (width_tiles (h r)) (length_tiles (h r))")
      case True
      then show ?thesis using nodup valid assms occupied place_object_occupied by simp
    next
      case False
      then show ?thesis
        using nodup valid assms free place_object_free [of p h r x y] by auto
    qed
  qed
qed

lemma place_object_returns:
  assumes "wf_platform p"
  shows "\<exists>out. place_object p h x y r = Inr out"
  using assms by (rule place_object_cases [of p h r x y]) simp_all

lemma place_object_keeps_wf:
  assumes "wf_platform p" "place_object p h x y r = Inr out"
  shows "wf_platform (platform out)"
  using assms(1)
proof (cases rule: place_object_cases [of p h r x y])
  case (free g)
  then show ?thesis using assms painted_wf by auto
qed (use assms in auto)

lemma place_object_keeps_id:
  assumes "place_object p h x y r = Inr out"
  shows "obj_id (store out r') = obj_id (h r')"
  using assms
  by (auto simp: place_object_def Let_def split: if_splits sum.splits)

lemma place_object_keeps_entry:
  assumes "place_object p h x y r = Inr out" "objects p i = Some r'"
  shows "objects (platform out) i = Some r'"
  using assms
  by (auto simp: place_object_def Let_def split: if_splits sum.splits)

lemma place_object_registers:
  assumes "place_object p h x y r = Inr out" "returned out"
  shows "objects (platform out) (obj_id (h r)) = Some r"
  using assms
  by (auto simp: place_object_def Let_def split: if_splits sum.splits)

lemma place_object_keeps_absent:
  assumes "place_object p h x y r = Inr out" "objects p i = None"
    and "returned out \<longrightarrow> obj_id (h r) \<noteq> i"
  shows "objects (platform out) i = None"
  using assms
  by (auto simp: place_object_def Let_def split: if_splits sum.splits)

section \<open>Sequences of calls\<close>

lemma place_all_Cons:
  assumes "place_all p h ((x, y, r) # cs) = Inr (bs, p', h')"
  obtains out bs' where "place_object p h x y r = Inr out"
    "place_all (platform out) (store out) cs = Inr (bs', p', h')" "bs = returned out # bs'"
  using assms by (auto split: sum.splits)

lemma place_all_length:
  "place_all p h cs = Inr (bs, p', h') \<Longrightarrow> length bs = length cs"
proof (induction cs arbitrary: p h bs)
  case Nil
  then show ?case by simp
next
  case (Cons c cs)
  obtain x y r where c: "c = (x, y, r)" by (cases c) auto
  from Cons.prems [unfolded c] show ?case
    by (rule place_all_Cons) (use Cons.IH in auto)
qed

lemma place_all_returns:
  "wf_platform p \<Longrightarrow> \<exists>bs p' h'. place_all p h cs = Inr (bs, p', h')"
proof (induction cs arbitrary: p h)
  case Nil
  then show ?case by simp
next
  case (Cons c cs)
  obtain x y r where c: "c = (x, y, r)" by (cases c) auto
  obtain out where out: "place_object p h x y r = Inr out"
    using place_object_returns [OF Cons.prems] by blast
  then have "wf_platform (platform out)"
    using place_object_keeps_wf Cons.prems by blast
  from Cons.IH [OF this, of "store out"] show ?case
    using out c by auto
qed

lemma place_all_keeps_entry:
  "place_all p h cs = Inr (bs, p', h') \<Longrightarrow> objects p i = Some r \<Longrightarrow> objects p' i = Some r"
proof (induction cs arbitrary: p h bs)
  case Nil
  then show ?case by simp
next
  case (Cons c cs)
  obtain x y r0 where c: "c = (x, y, r0)" by (cases c) auto
  from Cons.prems(1) [unfolded c] show ?case
    by (rule place_all_Cons) (use Cons.IH Cons.prems(2) place_object_keeps_entry in blast)
qed

lemma place_all_registers:
  "place_all p h cs = Inr (bs, p', h') \<Longrightarrow> k < length cs \<Longrightarrow> bs ! k \<Longrightarrow>
   cs ! k = (x, y, r) \<Longrightarrow> objects p' (obj_id (h r)) = Some r"
proof (induction cs arbitrary: p h bs k)
  case Nil
  then show ?case by simp
next
  case (Cons c cs)
  obtain x0 y0 r0 where c: "c = (x0, y0, r0)" by (cases c) auto
  from Cons.prems(1) [unfolded c] show ?case
  proof (rule place_all_Cons)
    fix out bs'
    assume out: "place_object p h x0 y0 r0 = Inr out"
      and rest: "place_all (platform out) (store out) cs = Inr (bs', p', h')"
      and bs: "bs = returned out # bs'"
    show ?thesis
    proof (cases k)
      case 0
      then have "returned out" "r0 = r" using Cons.prems(3,4) bs c by auto
      then have "objects (platform out) (obj_id (h r)) = Some r"
        using place_object_registers out by blast
      then show ?thesis using place_all_keeps_entry rest by blast
    next
      case (Suc k')
      then have "k' < length cs" "bs' ! k'" "cs ! k' = (x, y, r)"
        using Cons.prems(2,3,4) bs by auto
      then have "objects p' (obj_id (store out r)) = Some r"
        using Cons.IH rest by blast
      then show ?thesis using place_object_keeps_id [OF out] by simp
    qed
  qed
qed

lemma place_all_keeps_absent:
  "place_all p h cs = Inr (bs, p', h') \<Longrightarrow> objects p i = None \<Longrightarrow>
   (\<forall>k x y r. k < length cs \<and> bs ! k \<and> cs ! k = (x, y, r) \<longrightarrow> obj_id (h r) \<noteq> i) \<Longrightarrow>
   objects p' i = None"
proof (induction cs arbitrary: p h bs)
  case Nil
  then show ?case by simp
next
  case (Cons c cs)
  obtain x0 y0 r0 where c: "c = (x0, y0, r0)" by (cases c) auto
  from Cons.prems(1) [unfolded c] show ?case
  proof (rule place_all_Cons)
    fix out bs'
    assume out: "place_object p h x0 y0 r0 = Inr out"
      and rest: "place_all (platform out) (store out) cs = Inr (bs', p', h')"
      and bs: "bs = returned out # bs'"
    have "returned out \<longrightarrow> obj_id (h r0) \<noteq> i"
      using Cons.prems(3) [rule_format, of 0 x0 y0 r0] bs c by simp
    then have absent: "objects (platform out) i = None"
      using place_object_keeps_absent [OF out Cons.prems(2)] by blast
    have "\<forall>k x y r. k < length cs \<and> bs' ! k \<and> cs ! k = (x, y, r) \<longrightarrow> obj_id (store out r) \<noteq> i"
    proof (intro allI impI)
      fix k x y r assume k: "k < length cs \<and> bs' ! k \<and> cs ! k = (x, y, r)"
      then have "obj_id (h r) \<noteq> i"
        using Cons.prems(3) [rule_format, of "Suc k" x y r] bs by simp
      then show "obj_id (store out r) \<noteq> i" using place_object_keeps_id [OF out] by simp
    qed
    then show ?thesis using Cons.IH [OF rest absent] by blast
  qed
qed

lemma TilePlatform_init_wf:
  assumes "TilePlatform_init w l = Inr p"
  shows "wf_platform p" "objects p = Map.empty"
    "cell_at (grid p) cx cy = (if 0 \<le> cx \<and> cx < w \<and> 0 \<le> cy \<and> cy < l then Some Zero else None)"
  using assms
  by (auto simp: TilePlatform_init_def wf_platform_def py_range_def list_all_iff cell_at_def
           split: if_splits)

lemma place_all_keeps_id:
  "place_all p h cs = Inr (bs, p', h') \<Longrightarrow> obj_id (h' r) = obj_id (h r)"
proof (induction cs arbitrary: p h bs)
  case Nil
  then show ?case by simp
next
  case (Cons c cs)
  obtain x0 y0 r0 where c: "c = (x0, y0, r0)" by (cases c) auto
  from Cons.prems [unfolded c] show ?case
    by (rule place_all_Cons) (use Cons.IH place_object_keeps_id in metis)
qed

lemma TilePlatform_init_returns:
  assumes "0 < w" "0 < l"
  shows "\<exists>p. TilePlatform_init w l = Inr p"
  using assms by (simp add: TilePlatform_init_def)

section \<open>Cells once written stay written\<close>

lemma place_object_keeps_dims:
  assumes "place_object p h x y r = Inr out"
  shows "width_tiles (store out r') = width_tiles (h r')"
    and "length_tiles (store out r') = length_tiles (h r')"
  using assms
  by (auto simp: place_object_def Let_def split: if_splits sum.splits)

lemma place_object_fresh:
  assumes "place_object p h x y r = Inr out" "returned out"
  shows "objects p (obj_id (h r)) = None"
  using assms
  by (auto simp: place_object_def Let_def split: if_splits sum.splits)

lemma committed_keeps:
  assumes "place_object p h x0 y0 r0 = Inr out"
  shows "committed (store out) x y r = committed h x y r"
  using place_object_keeps_dims [OF assms] by (simp add: committed_def)

lemma place_object_keeps_cell:
  assumes "wf_platform p" "place_object p h x y r = Inr out"
    and "cell_at (grid p) cx cy = Some (Ref r')"
  shows "cell_at (grid (platform out)) cx cy = Some (Ref r')"
  using assms(1)
proof (cases rule: place_object_cases [of p h r x y])
  case (free g)
  let ?w = "width_tiles (h r)" and ?l = "length_tiles (h r)"
  have "\<not> in_box x y ?w ?l cx cy"
    using free(3) assms(3) by (auto simp: box_occupied_iff)
  then have "cell_at g cx cy = cell_at (grid p) cx cy"
    using painted_cell_at [OF free(4), of cx cy] by (auto simp: in_box_def)
  then show ?thesis using free(5) assms(2,3) by auto
qed (use assms in auto)

lemma place_object_fills:
  assumes "wf_platform p" "place_object p h x y r = Inr out" "returned out"
    and "c \<in> committed h x y r"
  shows "cell_at (grid (platform out)) (fst c) (snd c) = Some (Ref r)"
  using assms(1)
proof (cases rule: place_object_cases [of p h r x y])
  case (free g)
  let ?w = "width_tiles (h r)" and ?l = "length_tiles (h r)"
  have box: "in_box x y ?w ?l (fst c) (snd c)"
    using assms(4) by (auto simp: committed_def in_box_def set_py_range)
  have "cell_at (grid p) (fst c) (snd c) \<noteq> None"
    using wf_inside [OF assms(1) free(2)] box
    by (auto simp: cell_at_def in_box_def set_py_range)
  then have "cell_at g (fst c) (snd c) = Some (Ref r)"
    using painted_cell_at [OF free(4), of "fst c" "snd c"] box by (auto simp: in_box_def)
  then show ?thesis using free(5) assms(2) by auto
qed (use assms in auto)

lemma place_all_keeps_cell:
  "wf_platform p \<Longrightarrow> place_all p h cs = Inr (bs, p', h') \<Longrightarrow>
   cell_at (grid p) cx cy = Some (Ref r) \<Longrightarrow> cell_at (grid p') cx cy = Some (Ref r)"
proof (induction cs arbitrary: p h bs)
  case Nil
  then show ?case by simp
next
  case (Cons c cs)
  obtain x0 y0 r0 where c: "c = (x0, y0, r0)" by (cases c) auto
  from Cons.prems(2) [unfolded c] show ?case
  proof (rule place_all_Cons)
    fix out bs'
    assume out: "place_object p h x0 y0 r0 = Inr out"
      and rest: "place_all (platform out) (store out) cs = Inr (bs', p', h')"
    have "wf_platform (platform out)"
      using place_object_keeps_wf [OF Cons.prems(1) out] .
    moreover have "cell_at (grid (platform out)) cx cy = Some (Ref r)"
      using place_object_keeps_cell [OF Cons.prems(1) out Cons.prems(3)] .
    ultimately show ?thesis using Cons.IH rest by blast
  qed
qed

lemma place_all_fills:
  "wf_platform p \<Longrightarrow> place_all p h cs = Inr (bs, p', h') \<Longrightarrow> k < length cs \<Longrightarrow>
   bs ! k \<Longrightarrow> cs ! k = (x, y, r) \<Longrightarrow> c \<in> committed h x y r \<Longrightarrow>
   cell_at (grid p') (fst c) (snd c) = Some (Ref r)"
proof (induction cs arbitrary: p h bs k)
  case Nil
  then show ?case by simp
next
  case (Cons c0 cs)
  obtain x0 y0 r0 where c0: "c0 = (x0, y0, r0)" by (cases c0) auto
  from Cons.prems(2) [unfolded c0] show ?case
  proof (rule place_all_Cons)
    fix out bs'
    assume out: "place_object p h x0 y0 r0 = Inr out"
      and rest: "place_all (platform out) (store out) cs = Inr (bs', p', h')"
      and bs: "bs = returned out # bs'"
    have wf': "wf_platform (platform out)"
      using place_object_keeps_wf [OF Cons.prems(1) out] .
    show ?thesis
    proof (cases k)
      case 0
      then have "returned out" "x0 = x" "y0 = y" "r0 = r"
        using Cons.prems(4,5) bs c0 by auto
      then have "cell_at (grid (platform out)) (fst c) (snd c) = Some (Ref r)"
        using place_object_fills [OF Cons.prems(1) out] Cons.prems(6) by blast
      then show ?thesis using place_all_keeps_cell [OF wf' rest] by blast
    next
      case (Suc k')
      then have "k' < length cs" "bs' ! k'" "cs ! k' = (x, y, r)"
        using Cons.prems(3,4,5) bs by auto
      moreover have "c \<in> committed (store out) x y r"
        using Cons.prems(6) committed_keeps [OF out] by simp
      ultimately show ?thesis using Cons.IH [OF wf' rest] by blast
    qed
  qed
qed

lemma place_all_fresh:
  "place_all p h cs = Inr (bs, p', h') \<Longrightarrow> objects p i \<noteq> None \<Longrightarrow> k < length cs \<Longrightarrow>
   bs ! k \<Longrightarrow> cs ! k = (x, y, r) \<Longrightarrow> obj_id (h r) \<noteq> i"
proof (induction cs arbitrary: p h bs k)
  case Nil
  then show ?case by simp
next
  case (Cons c0 cs)
  obtain x0 y0 r0 where c0: "c0 = (x0, y0, r0)" by (cases c0) auto
  from Cons.prems(1) [unfolded c0] show ?case
  proof (rule place_all_Cons)
    fix out bs'
    assume out: "place_object p h x0 y0 r0 = Inr out"
      and rest: "place_all (platform out) (store out) cs = Inr (bs', p', h')"
      and bs: "bs = returned out # bs'"
    show ?thesis
    proof (cases k)
      case 0
      then have "returned out" "r0 = r" using Cons.prems(4,5) bs c0 by auto
      then have "objects p (obj_id (h r)) = None"
        using place_object_fresh out by blast
      then show ?thesis using Cons.prems(2) by auto
    next
      case (Suc k')
      then have k': "k' < length cs" "bs' ! k'" "cs ! k' = (x, y, r)"
        using Cons.prems(3,4,5) bs by auto
      have "objects (platform out) i \<noteq> None"
        using place_object_keeps_entry [OF out] Cons.prems(2) by auto
      then have "obj_id (store out r) \<noteq> i"
        using Cons.IH [OF rest _ k'] by blast
      then show ?thesis using place_object_keeps_id [OF out] by simp
    qed
  qed
qed

lemma place_all_distinct:
  "place_all p h cs = Inr (bs, p', h') \<Longrightarrow> k1 < k2 \<Longrightarrow> k2 < length cs \<Longrightarrow>
   bs ! k1 \<Longrightarrow> bs ! k2 \<Longrightarrow> cs ! k1 = (x1, y1, r1) \<Longrightarrow> cs ! k2 = (x2, y2, r2) \<Longrightarrow>
   obj_id (h r1) \<noteq> obj_id (h r2)"
proof (induction cs arbitrary: p h bs k1 k2)
  case Nil
  then show ?case by simp
next
  case (Cons c0 cs)
  obtain x0 y0 r0 where c0: "c0 = (x0, y0, r0)" by (cases c0) auto
  obtain k2' where k2: "k2 = Suc k2'" using Cons.prems(2) by (cases k2) auto
  from Cons.prems(1) [unfolded c0] show ?case
  proof (rule place_all_Cons)
    fix out bs'
    assume out: "place_object p h x0 y0 r0 = Inr out"
      and rest: "place_all (platform out) (store out) cs = Inr (bs', p', h')"
      and bs: "bs = returned out # bs'"
    have second: "k2' < length cs" "bs' ! k2'" "cs ! k2' = (x2, y2, r2)"
      using Cons.prems(3,5,7) bs k2 by auto
    show ?thesis
    proof (cases k1)
      case 0
      then have "returned out" "r0 = r1" using Cons.prems(4,6) bs c0 by auto
      then have "objects (platform out) (obj_id (h r1)) \<noteq> None"
        using place_object_registers [OF out] by auto
      then have "obj_id (store out r2) \<noteq> obj_id (h r1)"
        using place_all_fresh [OF rest _ second] by blast
      then show ?thesis using place_object_keeps_id [OF out] by simp
    next
      case (Suc k1')
      then have "k1' < k2'" "bs' ! k1'" "cs ! k1' = (x1, y1, r1)"
        using Cons.prems(2,4,6) bs k2 by auto
      then have "obj_id (store out r1) \<noteq> obj_id (store out r2)"
        using Cons.IH [OF rest _ second(1) _ second(2) _ second(3)] by blast
      then show ?thesis using place_object_keeps_id [OF out] by simp
    qed
  qed
qed

section \<open>The mask is never read\<close>

lemma place_object_mask:
  "place_object p (h(r := (h r)\<lparr>shape_mask := m\<rparr>)) x y r =
     (case place_object p h x y r of
        Inl e \<Rightarrow> Inl e
      | Inr out \<Rightarrow>
          Inr (out\<lparr>store := (store out)(r := (store out r)\<lparr>shape_mask := m\<rparr>)\<rparr>))"
  by (auto simp: place_object_def Let_def fun_eq_iff split: sum.splits)

section \<open>Evaluation of the examples\<close>

lemma py_range_unfold: "py_range a b = (if a < b then a # py_range (a + 1) b else [])"
  by (simp add: py_range_def upto_rec1)

lemma length_py_range: "length (py_range 0 l) = nat l"
  by (simp add: py_range_def)

lemmas run_defs = place_object_def Let_def is_valid_position_def is_area_free_def
  py_range_unfold py_getitem_def py_setitem_def py_index_def

lemmas demo_defs = demo_heap_def demo_platform_def house_platform_def house_heap_def
  rock_platform_def rock_heap_def empty_row_def house_row_def rock_row_def mature_tree_def

lemma wf_house_platform: "wf_platform house_platform"
  by (simp add: wf_platform_def demo_defs)

lemma wf_rock_platform: "wf_platform rock_platform"
  by (simp add: wf_platform_def demo_defs)

lemma init_demo_platform: "TilePlatform_init 10 5 = Inr demo_platform"
  by (simp add: TilePlatform_init_def demo_defs py_range_unfold eval_nat_numeral)

lemma place_fence: "place_object house_platform house_heap 2 2 2 =
    Inr \<lparr>returned = False, printed = AreaOccupied ''Fence'' 2 1 2 2,
         platform = house_platform, store = house_heap\<rparr>"
  by (simp add: run_defs demo_defs)

lemma place_rock: "place_object house_platform house_heap 10 0 3 =
    Inr \<lparr>returned = False, printed = OutOfBounds ''Rock'' 1 1 10 0,
         platform = house_platform, store = house_heap\<rparr>"
  by (simp add: run_defs demo_defs)

lemma place_house_again: "place_object house_platform house_heap 6 1 0 =
    Inr \<lparr>returned = False, printed = AlreadyPresent ''HouseA'',
         platform = house_platform, store = house_heap\<rparr>"
  by (simp add: run_defs demo_defs)

text \<open>
  The calls of \<^verbatim>\<open>run_tests\<close> on \<^verbatim>\<open>HouseA\<close>, \<^verbatim>\<open>Rock\<close> and \<^verbatim>\<open>Fence\<close>, and a run that
  places \<^verbatim>\<open>HouseA\<close> and \<^verbatim>\<open>TreeX\<close> with a refused \<^verbatim>\<open>Fence\<close> in between.
\<close>

lemma run_house_calls:
  "place_all demo_platform demo_heap [(1, 1, 0), (10, 0, 3), (2, 2, 2), (6, 1, 0)] =
     Inr ([True, False, False, False], house_platform, house_heap)"
  by (simp add: run_defs demo_defs fun_eq_iff)

lemma run_tree_calls:
  "\<exists>p h. place_all demo_platform demo_heap [(1, 1, 0), (2, 2, 2), (5, 1, 1)] =
     Inr ([True, False, True], p, h)"
  by (simp add: run_defs demo_defs)

section \<open>Properties of placement, construction and lookup\<close>

text \<open>
  C1. A placement whose bounding box leaves the platform (\<open>x < 0\<close>, \<open>y < 0\<close>,
  \<open>x + w > W\<close> or \<open>y + l > L\<close>), for an id that is not registered, fails: the call returns
  \<^verbatim>\<open>False\<close>, prints the out-of-bounds line, and the grid, the dictionary and the store are
  what they were.
\<close>

theorem place_object_out_of_bounds:
  assumes "objects p (obj_id (h r)) = None"
    and "x < 0 \<or> y < 0 \<or> x + width_tiles (h r) > width p \<or> y + length_tiles (h r) > length_p p"
  shows "place_object p h x y r =
           Inr \<lparr>returned = False,
                printed = OutOfBounds (obj_id (h r)) (width_tiles (h r)) (length_tiles (h r)) x y,
                platform = p, store = h\<rparr>"
proof -
  have "\<not> is_valid_position p x y (width_tiles (h r)) (length_tiles (h r))"
    using assms(2) by (auto simp: is_valid_position_def)
  with assms(1) show ?thesis by (simp add: place_object_outside)
qed

text \<open>\<^verbatim>\<open>Rock\<close> (1x1) at (10, 0) on the 10x5 platform that holds \<^verbatim>\<open>HouseA\<close>.\<close>

theorem place_object_out_of_bounds_witness:
  "objects house_platform (obj_id (house_heap 3)) = None \<and>
   10 + width_tiles (house_heap 3) > width house_platform \<and>
   place_object house_platform house_heap 10 0 3 =
     Inr \<lparr>returned = False, printed = OutOfBounds ''Rock'' 1 1 10 0,
          platform = house_platform, store = house_heap\<rparr>"
proof -
  have a: "objects house_platform (obj_id (house_heap 3)) = None"
    by (simp add: demo_defs)
  have b: "10 + width_tiles (house_heap 3) > width house_platform"
    by (simp add: demo_defs)
  have "place_object house_platform house_heap 10 0 3 =
     Inr \<lparr>returned = False,
          printed = OutOfBounds (obj_id (house_heap 3)) (width_tiles (house_heap 3))
                      (length_tiles (house_heap 3)) 10 0,
          platform = house_platform, store = house_heap\<rparr>"
    using a b
    by (intro place_object_out_of_bounds [where p = house_platform and h = house_heap and r = 3])
      simp_all
  moreover have "obj_id (house_heap 3) = ''Rock''" "width_tiles (house_heap 3) = 1"
    "length_tiles (house_heap 3) = 1"
    by (simp_all add: demo_defs)
  ultimately show ?thesis using a b by simp
qed

text \<open>
  C5. When the id of the object is already a key of the dictionary, the call fails as a
  duplicate, returning \<^verbatim>\<open>False\<close> and printing the already-present line, whatever the
  coordinates are and whatever the dictionary holds under that id (the very same instance
  included); nothing changes.
\<close>

theorem place_object_duplicate_id:
  assumes "objects p (obj_id (h r)) \<noteq> None"
  shows "place_object p h x y r =
           Inr \<lparr>returned = False, printed = AlreadyPresent (obj_id (h r)),
                platform = p, store = h\<rparr>"
  using assms by (rule place_object_duplicate)

text \<open>
  \<^verbatim>\<open>HouseA\<close>, placed at (1, 1), offered again at (1, 1) and at (6, 1), where the area is
  free and in bounds.
\<close>

theorem place_object_duplicate_id_witness:
  "objects house_platform (obj_id (house_heap 0)) = Some 0 \<and>
   x_coord (house_heap 0) = 1 \<and> y_coord (house_heap 0) = 1 \<and>
   place_object house_platform house_heap 1 1 0 =
     Inr \<lparr>returned = False, printed = AlreadyPresent ''HouseA'',
          platform = house_platform, store = house_heap\<rparr> \<and>
   is_valid_position house_platform 6 1 3 2 \<and> \<not> box_occupied (grid house_platform) 6 1 3 2 \<and>
   place_object house_platform house_heap 6 1 0 =
     Inr \<lparr>returned = False, printed = AlreadyPresent ''HouseA'',
          platform = house_platform, store = house_heap\<rparr>"
proof -
  have a: "objects house_platform (obj_id (house_heap 0)) = Some 0"
    by (simp add: demo_defs)
  then have b: "objects house_platform (obj_id (house_heap 0)) \<noteq> None"
    by simp
  have c: "obj_id (house_heap 0) = ''HouseA''" "x_coord (house_heap 0) = 1"
    "y_coord (house_heap 0) = 1"
    by (simp_all add: demo_defs)
  have d: "is_valid_position house_platform 6 1 3 2"
    "\<not> box_occupied (grid house_platform) 6 1 3 2"
    by (simp_all add: is_valid_position_def box_occupied_def cell_at_def py_range_unfold demo_defs)
  show ?thesis
    using place_object_duplicate_id [where p = house_platform and h = house_heap and r = 0
        and x = 1 and y = 1]
      place_object_duplicate_id [where p = house_platform and h = house_heap and r = 0
        and x = 6 and y = 1] a b c d
    by simp
qed

text \<open>
  C4. A call on a well-shaped platform returns, and when it returns \<^verbatim>\<open>False\<close> (for a
  duplicate id, a box out of bounds or an occupied cell) the grid and the dictionary after
  the call are those before it.
\<close>

theorem failed_place_object_is_transactional:
  assumes "wf_platform p"
  shows "\<exists>out. place_object p h x y r = Inr out \<and>
           (\<not> returned out \<longrightarrow>
              grid (platform out) = grid p \<and> objects (platform out) = objects p)"
  using assms by (rule place_object_cases [of p h r x y]) simp_all

text \<open>\<^verbatim>\<open>Fence\<close> (2x1) at (2, 2), on top of \<^verbatim>\<open>HouseA\<close>.\<close>

theorem failed_place_object_is_transactional_witness:
  "wf_platform house_platform \<and>
   (\<exists>out. place_object house_platform house_heap 2 2 2 = Inr out \<and> \<not> returned out \<and>
      grid (platform out) = grid house_platform \<and>
      objects (platform out) = objects house_platform)"
proof -
  obtain out where out: "place_object house_platform house_heap 2 2 2 = Inr out"
    "\<not> returned out \<longrightarrow>
       grid (platform out) = grid house_platform \<and>
       objects (platform out) = objects house_platform"
    using failed_place_object_is_transactional [OF wf_house_platform, of house_heap 2 2 2]
    by blast
  have "\<not> returned out" using out(1) place_fence by auto
  then show ?thesis using out wf_house_platform by blast
qed

text \<open>
  C10. A call on a well-shaped platform returns, and when it returns \<^verbatim>\<open>False\<close> the
  \<^verbatim>\<open>x_coord\<close> and \<^verbatim>\<open>y_coord\<close> of the object passed are what they were, as is the rest
  of the store.
\<close>

theorem failed_place_object_keeps_coordinates:
  assumes "wf_platform p"
  shows "\<exists>out. place_object p h x y r = Inr out \<and>
           (\<not> returned out \<longrightarrow>
              x_coord (store out r) = x_coord (h r) \<and> y_coord (store out r) = y_coord (h r) \<and>
              store out = h)"
  using assms by (rule place_object_cases [of p h r x y]) simp_all

text \<open>
  \<^verbatim>\<open>Rock\<close>, not placed, keeps (-1, -1) when it is refused at (10, 0); \<^verbatim>\<open>HouseA\<close>,
  placed at (1, 1), keeps (1, 1) when it is refused at (6, 1).
\<close>

theorem failed_place_object_keeps_coordinates_witness:
  "wf_platform house_platform \<and>
   (\<exists>out. place_object house_platform house_heap 10 0 3 = Inr out \<and> \<not> returned out \<and>
      x_coord (store out 3) = - 1 \<and> y_coord (store out 3) = - 1) \<and>
   (\<exists>out. place_object house_platform house_heap 6 1 0 = Inr out \<and> \<not> returned out \<and>
      x_coord (store out 0) = 1 \<and> y_coord (store out 0) = 1)"
proof -
  obtain a where a: "place_object house_platform house_heap 10 0 3 = Inr a"
    "\<not> returned a \<longrightarrow> x_coord (store a 3) = x_coord (house_heap 3) \<and>
       y_coord (store a 3) = y_coord (house_heap 3) \<and> store a = house_heap"
    using failed_place_object_keeps_coordinates [OF wf_house_platform, of house_heap 10 0 3]
    by blast
  obtain b where b: "place_object house_platform house_heap 6 1 0 = Inr b"
    "\<not> returned b \<longrightarrow> x_coord (store b 0) = x_coord (house_heap 0) \<and>
       y_coord (store b 0) = y_coord (house_heap 0) \<and> store b = house_heap"
    using failed_place_object_keeps_coordinates [OF wf_house_platform, of house_heap 6 1 0]
    by blast
  have "\<not> returned a" "\<not> returned b"
    using a(1) b(1) place_rock place_house_again by auto
  moreover have "x_coord (house_heap 3) = - 1" "y_coord (house_heap 3) = - 1"
    "x_coord (house_heap 0) = 1" "y_coord (house_heap 0) = 1"
    by (simp_all add: demo_defs)
  ultimately show ?thesis using a b wf_house_platform by auto
qed

text \<open>
  C3. On a well-shaped platform, when the id is not registered, the bounding box lies in
  the platform and every cell of the box is empty, the call returns \<^verbatim>\<open>True\<close>; after it
  every cell of the box holds the reference passed and every other cell is as before, the
  dictionary maps the id to that reference, and the object's coordinates are \<open>(x, y)\<close>,
  nothing else in the store having changed.
\<close>

theorem successful_place_object_commits:
  assumes "wf_platform p" "objects p (obj_id (h r)) = None"
    and "0 \<le> x" "0 \<le> y" "x + width_tiles (h r) \<le> width p" "y + length_tiles (h r) \<le> length_p p"
    and "\<forall>cx cy. in_box x y (width_tiles (h r)) (length_tiles (h r)) cx cy \<longrightarrow>
           cell_at (grid p) cx cy = Some Zero"
  shows "\<exists>out. place_object p h x y r = Inr out \<and> returned out \<and>
           (\<forall>cx cy. cell_at (grid (platform out)) cx cy =
              (if in_box x y (width_tiles (h r)) (length_tiles (h r)) cx cy then Some (Ref r)
               else cell_at (grid p) cx cy)) \<and>
           objects (platform out) = (objects p)(obj_id (h r) \<mapsto> r) \<and>
           x_coord (store out r) = x \<and> y_coord (store out r) = y \<and>
           store out = h(r := (h r)\<lparr>x_coord := x, y_coord := y\<rparr>)"
proof -
  let ?w = "width_tiles (h r)" and ?l = "length_tiles (h r)"
  have valid: "is_valid_position p x y ?w ?l"
    using assms(3-6) by (simp add: is_valid_position_def)
  have empty: "\<not> box_occupied (grid p) x y ?w ?l"
    using assms(7) by (auto simp: box_occupied_iff)
  obtain g where g: "painted (grid p) g {y..<y + ?l} {x..<x + ?w} (Ref r)"
    and out: "place_object p h x y r =
       Inr \<lparr>returned = True, printed = Placed (obj_id (h r)) ?w ?l x y,
            platform = p\<lparr>grid := g, objects := (objects p)(obj_id (h r) \<mapsto> r)\<rparr>,
            store = h(r := (h r)\<lparr>x_coord := x, y_coord := y\<rparr>)\<rparr>"
    using place_object_free [of p h r x y, OF assms(1,2) valid empty] by blast
  have "cell_at g cx cy = (if in_box x y ?w ?l cx cy then Some (Ref r) else cell_at (grid p) cx cy)"
    for cx cy
    using painted_cell_at [OF g, of cx cy] assms(7) [rule_format, of cx cy]
    by (auto simp: in_box_def)
  then show ?thesis using out by simp
qed

text \<open>\<^verbatim>\<open>HouseA\<close> (3x2) at (1, 1) on the empty 10x5 platform.\<close>

theorem successful_place_object_commits_witness:
  "wf_platform demo_platform \<and> objects demo_platform (obj_id (demo_heap 0)) = None \<and>
   1 + width_tiles (demo_heap 0) \<le> width demo_platform \<and>
   1 + length_tiles (demo_heap 0) \<le> length_p demo_platform \<and>
   \<not> box_occupied (grid demo_platform) 1 1 3 2 \<and>
   (\<exists>out. place_object demo_platform demo_heap 1 1 0 = Inr out \<and> returned out \<and>
      cell_at (grid (platform out)) 1 1 = Some (Ref 0) \<and>
      cell_at (grid (platform out)) 3 2 = Some (Ref 0) \<and>
      cell_at (grid (platform out)) 4 2 = Some Zero \<and>
      objects (platform out) ''HouseA'' = Some 0 \<and>
      x_coord (store out 0) = 1 \<and> y_coord (store out 0) = 1)"
proof -
  have wf: "wf_platform demo_platform"
    by (simp add: wf_platform_def demo_defs)
  have dims: "obj_id (demo_heap 0) = ''HouseA''" "width_tiles (demo_heap 0) = 3"
    "length_tiles (demo_heap 0) = 2"
    by (simp_all add: demo_defs)
  have fresh: "objects demo_platform (obj_id (demo_heap 0)) = None"
    by (simp add: demo_defs)
  have fits: "1 + width_tiles (demo_heap 0) \<le> width demo_platform"
    "1 + length_tiles (demo_heap 0) \<le> length_p demo_platform"
    by (simp_all add: demo_defs)
  have free: "\<not> box_occupied (grid demo_platform) 1 1 3 2"
    by (simp add: box_occupied_def cell_at_def py_range_unfold demo_defs)
  then have empty: "\<forall>cx cy. in_box 1 1 (width_tiles (demo_heap 0)) (length_tiles (demo_heap 0)) cx cy
      \<longrightarrow> cell_at (grid demo_platform) cx cy = Some Zero"
    unfolding dims box_occupied_iff by blast
  obtain out where out: "place_object demo_platform demo_heap 1 1 0 = Inr out" "returned out"
    "\<forall>cx cy. cell_at (grid (platform out)) cx cy =
        (if in_box 1 1 (width_tiles (demo_heap 0)) (length_tiles (demo_heap 0)) cx cy
         then Some (Ref 0) else cell_at (grid demo_platform) cx cy)"
    "objects (platform out) = (objects demo_platform)(obj_id (demo_heap 0) \<mapsto> 0)"
    "x_coord (store out 0) = 1" "y_coord (store out 0) = 1"
    using successful_place_object_commits [where p = demo_platform and h = demo_heap and r = 0
        and x = 1 and y = 1, OF wf fresh _ _ fits empty]
    by auto
  have "cell_at (grid (platform out)) 1 1 = Some (Ref 0)"
    "cell_at (grid (platform out)) 3 2 = Some (Ref 0)"
    "cell_at (grid (platform out)) 4 2 = Some Zero"
    unfolding out(3) [rule_format] dims
    by (simp_all add: in_box_def cell_at_def demo_defs)
  moreover have "objects (platform out) ''HouseA'' = Some 0"
    unfolding out(4) dims by simp
  ultimately show ?thesis using wf fresh fits free out by blast
qed

text \<open>
  C2. For a well-shaped platform, an id that is not registered and a bounding box inside
  the platform, the call returns \<^verbatim>\<open>False\<close> exactly when some cell of the whole box
  \<open>[x, x+w) \<times> [y, y+l)\<close> is not empty, and then prints the occupied-area line. The mask
  plays no part: with any other mask on the object the call returns the same boolean,
  prints the same line and leaves the same platform.
\<close>

theorem collision_check_covers_whole_box:
  assumes "wf_platform p" "objects p (obj_id (h r)) = None"
    and "0 \<le> x" "0 \<le> y" "x + width_tiles (h r) \<le> width p" "y + length_tiles (h r) \<le> length_p p"
  shows "\<exists>out. place_object p h x y r = Inr out \<and>
           (\<not> returned out) =
             (\<exists>cx cy. in_box x y (width_tiles (h r)) (length_tiles (h r)) cx cy \<and>
                cell_at (grid p) cx cy \<noteq> Some Zero) \<and>
           (\<not> returned out \<longrightarrow>
              printed out =
                AreaOccupied (obj_id (h r)) (width_tiles (h r)) (length_tiles (h r)) x y) \<and>
           (\<forall>m. \<exists>out'. place_object p (h(r := (h r)\<lparr>shape_mask := m\<rparr>)) x y r = Inr out' \<and>
              returned out' = returned out \<and> printed out' = printed out \<and>
              platform out' = platform out)"
proof -
  let ?w = "width_tiles (h r)" and ?l = "length_tiles (h r)"
  have valid: "is_valid_position p x y ?w ?l"
    using assms(3-6) by (simp add: is_valid_position_def)
  show ?thesis
  proof (cases "box_occupied (grid p) x y ?w ?l")
    case True
    then show ?thesis
      using place_object_occupied [of p h r x y, OF assms(1,2) valid]
      by (simp add: place_object_mask box_occupied_iff)
  next
    case False
    then show ?thesis
      using place_object_free [of p h r x y, OF assms(1,2) valid]
      by (auto simp: place_object_mask box_occupied_iff)
  qed
qed

text \<open>
  \<^verbatim>\<open>TreeX\<close> (3x3) at (5, 1) when \<^verbatim>\<open>Rock\<close> sits at (7, 3): the only occupied cell of
  the box is its corner (7, 3), where the mask of \<^verbatim>\<open>TreeX\<close> has 0.
\<close>

theorem collision_check_covers_whole_box_witness:
  "wf_platform rock_platform \<and> objects rock_platform (obj_id (rock_heap 1)) = None \<and>
   5 + width_tiles (rock_heap 1) \<le> width rock_platform \<and>
   1 + length_tiles (rock_heap 1) \<le> length_p rock_platform \<and>
   shape_mask (rock_heap 1) ! 2 ! 2 = 0 \<and>
   cell_at (grid rock_platform) 7 3 = Some (Ref 3) \<and>
   (\<exists>out. place_object rock_platform rock_heap 5 1 1 = Inr out \<and> \<not> returned out \<and>
      printed out = AreaOccupied ''TreeX'' 3 3 5 1)"
proof -
  have dims: "obj_id (rock_heap 1) = ''TreeX''" "width_tiles (rock_heap 1) = 3"
    "length_tiles (rock_heap 1) = 3"
    by (simp_all add: demo_defs)
  have fresh: "objects rock_platform (obj_id (rock_heap 1)) = None"
    by (simp add: demo_defs)
  have fits: "5 + width_tiles (rock_heap 1) \<le> width rock_platform"
    "1 + length_tiles (rock_heap 1) \<le> length_p rock_platform"
    by (simp_all add: demo_defs)
  have corner: "shape_mask (rock_heap 1) ! 2 ! 2 = 0"
    "cell_at (grid rock_platform) 7 3 = Some (Ref 3)"
    by (simp_all add: cell_at_def demo_defs)
  obtain out where out: "place_object rock_platform rock_heap 5 1 1 = Inr out"
    "(\<not> returned out) =
       (\<exists>cx cy. in_box 5 1 (width_tiles (rock_heap 1)) (length_tiles (rock_heap 1)) cx cy \<and>
          cell_at (grid rock_platform) cx cy \<noteq> Some Zero)"
    "\<not> returned out \<longrightarrow>
       printed out = AreaOccupied (obj_id (rock_heap 1)) (width_tiles (rock_heap 1))
                       (length_tiles (rock_heap 1)) 5 1"
    using collision_check_covers_whole_box [where p = rock_platform and h = rock_heap
        and r = 1 and x = 5 and y = 1, OF wf_rock_platform fresh _ _ fits]
    by auto
  have "in_box 5 1 (width_tiles (rock_heap 1)) (length_tiles (rock_heap 1)) 7 3 \<and>
        cell_at (grid rock_platform) 7 3 \<noteq> Some Zero"
    unfolding dims using corner(2) by (simp add: in_box_def)
  then have "\<not> returned out" using out(2) by blast
  then show ?thesis
    using out(1,3) dims fresh fits corner wf_rock_platform by auto
qed

text \<open>
  C8, as the code has it. A call on a well-shaped platform returns a boolean and nothing
  else: \<^verbatim>\<open>True\<close> when the id is new, the box is in bounds and the box is empty,
  \<^verbatim>\<open>False\<close> in the three other cases alike. Which of the three it was shows only in
  the line printed.
\<close>

theorem place_object_returns_boolean:
  assumes "wf_platform p"
  shows "\<exists>out. place_object p h x y r = Inr out \<and>
           return_value (place_object p h x y r) =
             Inr (objects p (obj_id (h r)) = None \<and>
                  is_valid_position p x y (width_tiles (h r)) (length_tiles (h r)) \<and>
                  \<not> box_occupied (grid p) x y (width_tiles (h r)) (length_tiles (h r))) \<and>
           printed out =
             (if objects p (obj_id (h r)) \<noteq> None then AlreadyPresent (obj_id (h r))
              else if \<not> is_valid_position p x y (width_tiles (h r)) (length_tiles (h r))
              then OutOfBounds (obj_id (h r)) (width_tiles (h r)) (length_tiles (h r)) x y
              else if box_occupied (grid p) x y (width_tiles (h r)) (length_tiles (h r))
              then AreaOccupied (obj_id (h r)) (width_tiles (h r)) (length_tiles (h r)) x y
              else Placed (obj_id (h r)) (width_tiles (h r)) (length_tiles (h r)) x y)"
  using assms by (rule place_object_cases [of p h r x y]) (simp_all add: return_value_def)

text \<open>\<^verbatim>\<open>Fence\<close> (2x1) at (2, 2), on top of \<^verbatim>\<open>HouseA\<close>: the caller gets \<^verbatim>\<open>False\<close>.\<close>

theorem place_object_returns_boolean_witness:
  "wf_platform house_platform \<and>
   return_value (place_object house_platform house_heap 2 2 2) = Inr False \<and>
   (\<exists>out. place_object house_platform house_heap 2 2 2 = Inr out \<and>
      printed out = AreaOccupied ''Fence'' 2 1 2 2)"
proof -
  have dims: "obj_id (house_heap 2) = ''Fence''" "width_tiles (house_heap 2) = 2"
    "length_tiles (house_heap 2) = 1"
    by (simp_all add: demo_defs)
  have state: "objects house_platform ''Fence'' = None"
    "is_valid_position house_platform 2 2 2 1" "box_occupied (grid house_platform) 2 2 2 1"
    by (simp_all add: is_valid_position_def box_occupied_def cell_at_def py_range_unfold
        demo_defs)
  show ?thesis
    using place_object_returns_boolean [OF wf_house_platform, of house_heap 2 2 2]
      wf_house_platform state
    unfolding dims by auto
qed

text \<open>
  C8, as stated, fails. On the platform that holds \<^verbatim>\<open>HouseA\<close>, offering \<^verbatim>\<open>HouseA\<close>
  again (a duplicate), \<^verbatim>\<open>Rock\<close> at (10, 0) (out of bounds) and \<^verbatim>\<open>Fence\<close> at (2, 2)
  (a collision) hands the caller the same \<^verbatim>\<open>False\<close> three times; the printed lines
  are what differs.
\<close>

theorem failure_kinds_share_return_value:
  "return_value (place_object house_platform house_heap 6 1 0) = Inr False \<and>
   return_value (place_object house_platform house_heap 10 0 3) = Inr False \<and>
   return_value (place_object house_platform house_heap 2 2 2) = Inr False \<and>
   place_object house_platform house_heap 6 1 0 =
     Inr \<lparr>returned = False, printed = AlreadyPresent ''HouseA'',
          platform = house_platform, store = house_heap\<rparr> \<and>
   place_object house_platform house_heap 10 0 3 =
     Inr \<lparr>returned = False, printed = OutOfBounds ''Rock'' 1 1 10 0,
          platform = house_platform, store = house_heap\<rparr> \<and>
   place_object house_platform house_heap 2 2 2 =
     Inr \<lparr>returned = False, printed = AreaOccupied ''Fence'' 2 1 2 2,
          platform = house_platform, store = house_heap\<rparr>"
  by (simp add: return_value_def place_house_again place_rock place_fence)

text \<open>
  C9. \<^verbatim>\<open>PlatformObject.__init__\<close> raises \<^verbatim>\<open>ValueError\<close> exactly when the id is empty, or
  a mask is supplied whose number of rows is not \<^verbatim>\<open>length_tiles\<close> or one of whose rows
  has not \<^verbatim>\<open>width_tiles\<close> entries. Otherwise it gives an object with the id and the
  dimensions passed and both coordinates -1, whose mask is the supplied one or, when none
  is supplied, \<^verbatim>\<open>length_tiles\<close> rows of \<^verbatim>\<open>width_tiles\<close> ones (no rows or no columns
  for a dimension that is not positive). No width or length is refused.
\<close>

theorem PlatformObject_init_validation:
  "(if oid = [] \<or>
       (\<exists>m. supplied = Some m \<and>
          (int (length m) \<noteq> l \<or> (\<exists>row \<in> set m. int (length row) \<noteq> w)))
    then PlatformObject_init oid w l supplied = Inl ValueError
    else PlatformObject_init oid w l supplied =
           Inr \<lparr>obj_id = oid, width_tiles = w, length_tiles = l, x_coord = - 1, y_coord = - 1,
                shape_mask =
                  (case supplied of None \<Rightarrow> replicate (nat l) (replicate (nat w) 1)
                   | Some m \<Rightarrow> m)\<rparr>) \<and>
   (oid \<noteq> [] \<longrightarrow> (\<exists>ob. PlatformObject_init oid w l None = Inr ob))"
  by (auto simp: PlatformObject_init_def list_ex_iff map_replicate_const length_py_range
      split: option.splits)

text \<open>
  An empty id; a 3x3 mask for a 3x2 object; the same mask for a 3x3 object; width 0 and
  length -2 without a mask; width -1 and length 2 without a mask.
\<close>

theorem PlatformObject_init_validation_witness:
  "PlatformObject_init [] 1 1 None = Inl ValueError \<and>
   PlatformObject_init ''TreeX'' 3 2 (Some mature_tree) = Inl ValueError \<and>
   PlatformObject_init ''TreeX'' 3 3 (Some mature_tree) =
     Inr \<lparr>obj_id = ''TreeX'', width_tiles = 3, length_tiles = 3, x_coord = - 1, y_coord = - 1,
          shape_mask = mature_tree\<rparr> \<and>
   PlatformObject_init ''Rock'' 0 (- 2) None =
     Inr \<lparr>obj_id = ''Rock'', width_tiles = 0, length_tiles = - 2, x_coord = - 1, y_coord = - 1,
          shape_mask = []\<rparr> \<and>
   PlatformObject_init ''Rock'' (- 1) 2 None =
     Inr \<lparr>obj_id = ''Rock'', width_tiles = - 1, length_tiles = 2, x_coord = - 1, y_coord = - 1,
          shape_mask = [[], []]\<rparr>"
proof -
  have a: "PlatformObject_init [] 1 1 None = Inl ValueError"
    using PlatformObject_init_validation [of "[]" None 1 1] by simp
  have b: "PlatformObject_init ''TreeX'' 3 2 (Some mature_tree) = Inl ValueError"
    using PlatformObject_init_validation [of "''TreeX''" "Some mature_tree" 2 3]
    by (simp add: mature_tree_def)
  have c: "PlatformObject_init ''TreeX'' 3 3 (Some mature_tree) =
     Inr \<lparr>obj_id = ''TreeX'', width_tiles = 3, length_tiles = 3, x_coord = - 1, y_coord = - 1,
          shape_mask = mature_tree\<rparr>"
    using PlatformObject_init_validation [of "''TreeX''" "Some mature_tree" 3 3]
    by (simp add: mature_tree_def)
  have d: "PlatformObject_init ''Rock'' 0 (- 2) None =
     Inr \<lparr>obj_id = ''Rock'', width_tiles = 0, length_tiles = - 2, x_coord = - 1, y_coord = - 1,
          shape_mask = []\<rparr>"
    using PlatformObject_init_validation [of "''Rock''" None "- 2" 0] by simp
  have e: "PlatformObject_init ''Rock'' (- 1) 2 None =
     Inr \<lparr>obj_id = ''Rock'', width_tiles = - 1, length_tiles = 2, x_coord = - 1, y_coord = - 1,
          shape_mask = [[], []]\<rparr>"
    using PlatformObject_init_validation [of "''Rock''" None 2 "- 1"]
    by (simp add: eval_nat_numeral)
  from a b c d e show ?thesis by blast
qed

text \<open>
  C6. \<^verbatim>\<open>get_object_instance\<close> only reads. After any sequence of calls of
  \<^verbatim>\<open>place_object\<close> on a new platform (the sequence runs to its end without an exception),
  it hands the platform back as it was, it returns for the id of every object whose call
  returned \<^verbatim>\<open>True\<close> the very reference that call was given, and it returns \<^verbatim>\<open>None\<close>
  for every id that no successful call carried. The calls change no object's id, so the id
  of an object is the one it had when the run began.
\<close>

theorem lookup_returns_placed_reference:
  assumes "0 < w" "0 < l"
  shows "\<exists>p0 bs p h. TilePlatform_init w l = Inr p0 \<and> place_all p0 h0 cs = Inr (bs, p, h) \<and>
           length bs = length cs \<and> (\<forall>r. obj_id (h r) = obj_id (h0 r)) \<and>
           (\<forall>i. snd (get_object_instance p i) = p) \<and>
           (\<forall>k x y r. k < length cs \<and> bs ! k \<and> cs ! k = (x, y, r) \<longrightarrow>
              fst (get_object_instance p (obj_id (h0 r))) = Some r) \<and>
           (\<forall>i. (\<forall>k x y r. k < length cs \<and> bs ! k \<and> cs ! k = (x, y, r) \<longrightarrow> obj_id (h0 r) \<noteq> i)
              \<longrightarrow> fst (get_object_instance p i) = None)"
proof -
  obtain p0 where p0: "TilePlatform_init w l = Inr p0"
    using TilePlatform_init_returns [OF assms] by blast
  obtain bs p h where run: "place_all p0 h0 cs = Inr (bs, p, h)"
    using place_all_returns [OF TilePlatform_init_wf(1) [OF p0]] by blast
  have "objects p0 i = None" for i
    using TilePlatform_init_wf(2) [OF p0] by simp
  then have "\<forall>i. (\<forall>k x y r. k < length cs \<and> bs ! k \<and> cs ! k = (x, y, r) \<longrightarrow> obj_id (h0 r) \<noteq> i)
      \<longrightarrow> objects p i = None"
    using place_all_keeps_absent [OF run] by blast
  moreover have "\<forall>k x y r. k < length cs \<and> bs ! k \<and> cs ! k = (x, y, r) \<longrightarrow>
      objects p (obj_id (h0 r)) = Some r"
    using place_all_registers [OF run] by blast
  ultimately show ?thesis
    using p0 run place_all_length [OF run] place_all_keeps_id [OF run]
    by (simp add: get_object_instance_def)
qed

text \<open>
  The 10x5 platform after \<^verbatim>\<open>HouseA\<close> at (1, 1), \<^verbatim>\<open>Rock\<close> at (10, 0), \<^verbatim>\<open>Fence\<close> at
  (2, 2) and \<^verbatim>\<open>HouseA\<close> again at (6, 1): only the first call succeeds.
\<close>

theorem lookup_returns_placed_reference_witness:
  "(0::int) < 10 \<and> (0::int) < 5 \<and>
   place_all demo_platform demo_heap [(1, 1, 0), (10, 0, 3), (2, 2, 2), (6, 1, 0)] =
     Inr ([True, False, False, False], house_platform, house_heap) \<and>
   get_object_instance house_platform ''HouseA'' = (Some 0, house_platform) \<and>
   get_object_instance house_platform ''Fence'' = (None, house_platform) \<and>
   get_object_instance house_platform ''NonExist'' = (None, house_platform)"
proof -
  let ?cs = "[(1, 1, 0), (10, 0, 3), (2, 2, 2), (6, 1, 0)] :: (int \<times> int \<times> ref) list"
  obtain p0 bs p h where init: "TilePlatform_init 10 5 = Inr p0"
    and run: "place_all p0 demo_heap ?cs = Inr (bs, p, h)"
    and same: "\<forall>i. snd (get_object_instance p i) = p"
    and found: "\<forall>k x y r. k < length ?cs \<and> bs ! k \<and> ?cs ! k = (x, y, r) \<longrightarrow>
        fst (get_object_instance p (obj_id (demo_heap r))) = Some r"
    and missing: "\<forall>i. (\<forall>k x y r. k < length ?cs \<and> bs ! k \<and> ?cs ! k = (x, y, r) \<longrightarrow>
          obj_id (demo_heap r) \<noteq> i) \<longrightarrow> fst (get_object_instance p i) = None"
    using lookup_returns_placed_reference [of 10 5 demo_heap ?cs] by auto
  have p0: "p0 = demo_platform" using init init_demo_platform by simp
  then have res: "bs = [True, False, False, False]" "p = house_platform"
    using run run_house_calls by simp_all
  have house: "fst (get_object_instance house_platform ''HouseA'') = Some 0"
    using found [rule_format, of 0 1 1 0] unfolding res by (simp add: demo_defs)
  have only: "obj_id (demo_heap r) \<noteq> i"
    if "k < length ?cs \<and> bs ! k \<and> ?cs ! k = (x, y, r)" "i \<noteq> ''HouseA''" for k x y r i
  proof -
    have "k < 4" using that(1) by simp
    then consider "k = 0" | "k = 1" | "k = 2" | "k = 3" by linarith
    then have "k = 0" using that(1) unfolding res by cases simp_all
    then have "r = 0" using that(1) by simp
    then show ?thesis using that(2) by (simp add: demo_defs)
  qed
  have "fst (get_object_instance house_platform ''Fence'') = None"
    "fst (get_object_instance house_platform ''NonExist'') = None"
    using missing [rule_format, of "''Fence''"] missing [rule_format, of "''NonExist''"] only
    unfolding res by auto
  then show ?thesis
    using house same [rule_format, of "''HouseA''"] same [rule_format, of "''Fence''"]
      same [rule_format, of "''NonExist''"] run_house_calls
    unfolding res by (simp add: prod_eq_iff)
qed

text \<open>
  C7. After any sequence of calls of \<^verbatim>\<open>place_object\<close> on a new platform (the sequence
  runs to its end without an exception), the cells written for a call that returned
  \<^verbatim>\<open>True\<close> still hold the reference of that call, two calls that returned \<^verbatim>\<open>True\<close>
  were given different objects, and the sets of cells written for them are disjoint.
\<close>

theorem placed_boxes_never_overlap:
  assumes "0 < w" "0 < l"
  shows "\<exists>p0 bs p h. TilePlatform_init w l = Inr p0 \<and> place_all p0 h0 cs = Inr (bs, p, h) \<and>
           (\<forall>k x y r. k < length cs \<and> bs ! k \<and> cs ! k = (x, y, r) \<longrightarrow>
              (\<forall>c \<in> committed h0 x y r. cell_at (grid p) (fst c) (snd c) = Some (Ref r))) \<and>
           (\<forall>k1 k2 x1 y1 r1 x2 y2 r2.
              k1 < length cs \<and> k2 < length cs \<and> k1 \<noteq> k2 \<and> bs ! k1 \<and> bs ! k2 \<and>
              cs ! k1 = (x1, y1, r1) \<and> cs ! k2 = (x2, y2, r2) \<longrightarrow>
              r1 \<noteq> r2 \<and> committed h0 x1 y1 r1 \<inter> committed h0 x2 y2 r2 = {})"
proof -
  obtain p0 where p0: "TilePlatform_init w l = Inr p0"
    using TilePlatform_init_returns [OF assms] by blast
  have wf: "wf_platform p0" using TilePlatform_init_wf(1) [OF p0] .
  obtain bs p h where run: "place_all p0 h0 cs = Inr (bs, p, h)"
    using place_all_returns [OF wf] by blast
  have filled: "cell_at (grid p) (fst c) (snd c) = Some (Ref r)"
    if "k < length cs" "bs ! k" "cs ! k = (x, y, r)" "c \<in> committed h0 x y r" for k x y r c
    using place_all_fills [OF wf run that] .
  have ids: "obj_id (h0 r1) \<noteq> obj_id (h0 r2)"
    if "k1 < length cs" "k2 < length cs" "k1 \<noteq> k2" "bs ! k1" "bs ! k2"
      "cs ! k1 = (x1, y1, r1)" "cs ! k2 = (x2, y2, r2)" for k1 k2 x1 y1 r1 x2 y2 r2
  proof (cases "k1 < k2")
    case True
    then show ?thesis using place_all_distinct [OF run True that(2,4,5,6,7)] by simp
  next
    case False
    then have "k2 < k1" using that(3) by simp
    then show ?thesis using place_all_distinct [OF run _ that(1,5,4,7,6)] by metis
  qed
  have apart: "r1 \<noteq> r2 \<and> committed h0 x1 y1 r1 \<inter> committed h0 x2 y2 r2 = {}"
    if "k1 < length cs" "k2 < length cs" "k1 \<noteq> k2" "bs ! k1" "bs ! k2"
      "cs ! k1 = (x1, y1, r1)" "cs ! k2 = (x2, y2, r2)" for k1 k2 x1 y1 r1 x2 y2 r2
  proof -
    have ne: "r1 \<noteq> r2" using ids [OF that] by auto
    have False if c1: "c \<in> committed h0 x1 y1 r1" and c2: "c \<in> committed h0 x2 y2 r2" for c
      using filled [OF \<open>k1 < length cs\<close> \<open>bs ! k1\<close> \<open>cs ! k1 = (x1, y1, r1)\<close> c1]
        filled [OF \<open>k2 < length cs\<close> \<open>bs ! k2\<close> \<open>cs ! k2 = (x2, y2, r2)\<close> c2] ne
      by simp
    then show ?thesis using ne by blast
  qed
  show ?thesis
    using p0 run filled apart by (intro exI [of _ p0] exI [of _ bs] exI [of _ p] exI [of _ h]) blast
qed

text \<open>
  \<^verbatim>\<open>HouseA\<close> (3x2) at (1, 1), \<^verbatim>\<open>Fence\<close> refused at (2, 2), \<^verbatim>\<open>TreeX\<close> (3x3) at
  (5, 1): the six cells of the house and the nine of the tree share none.
\<close>

theorem placed_boxes_never_overlap_witness:
  "(0::int) < 10 \<and> (0::int) < 5 \<and>
   (\<exists>p h. place_all demo_platform demo_heap [(1, 1, 0), (2, 2, 2), (5, 1, 1)] =
      Inr ([True, False, True], p, h)) \<and>
   committed demo_heap 1 1 0 \<inter> committed demo_heap 5 1 1 = {} \<and>
   (1, 1) \<in> committed demo_heap 1 1 0 \<and> (7, 3) \<in> committed demo_heap 5 1 1"
proof -
  let ?cs = "[(1, 1, 0), (2, 2, 2), (5, 1, 1)] :: (int \<times> int \<times> ref) list"
  obtain p0 bs p h where init: "TilePlatform_init 10 5 = Inr p0"
    and run: "place_all p0 demo_heap ?cs = Inr (bs, p, h)"
    and apart: "\<forall>k1 k2 x1 y1 r1 x2 y2 r2.
        k1 < length ?cs \<and> k2 < length ?cs \<and> k1 \<noteq> k2 \<and> bs ! k1 \<and> bs ! k2 \<and>
        ?cs ! k1 = (x1, y1, r1) \<and> ?cs ! k2 = (x2, y2, r2) \<longrightarrow>
        r1 \<noteq> r2 \<and> committed demo_heap x1 y1 r1 \<inter> committed demo_heap x2 y2 r2 = {}"
    using placed_boxes_never_overlap [of 10 5 demo_heap ?cs] by auto
  have "p0 = demo_platform" using init init_demo_platform by simp
  then have bs: "bs = [True, False, True]"
    using run run_tree_calls by auto
  have "committed demo_heap 1 1 0 \<inter> committed demo_heap 5 1 1 = {}"
    using apart [rule_format, of 0 2 1 1 0 5 1 1] unfolding bs by simp
  moreover have "(1, 1) \<in> committed demo_heap 1 1 0" "(7, 3) \<in> committed demo_heap 5 1 1"
    by (simp_all add: committed_def set_py_range demo_defs)
  ultimately show ?thesis using run_tree_calls by simp
qed

end
